theory Spec2Isabelle
  imports Complex_Main
begin

section \<open>numpy floating-point values\<close>

text \<open>
  Every numeric column of the script is a float64 column. The model keeps the finite
  values as exact reals (no rounding error, no overflow, one zero) and adds the two
  infinities and NaN, which numpy produces instead of raising: a division by zero gives
  an infinity, and \<^verbatim>\<open>0/0\<close> gives NaN. pandas uses NaN for a missing value as well.
  \<open>Inf True\<close> is \<^verbatim>\<open>+inf\<close>, \<open>Inf False\<close> is \<^verbatim>\<open>-inf\<close>.
\<close>

datatype npfloat = Finite real | Inf bool | NaN

fun fmul :: "npfloat \<Rightarrow> npfloat \<Rightarrow> npfloat" where
  "fmul (Finite x) (Finite y) = Finite (x * y)"
| "fmul (Finite x) (Inf s) = (if x = 0 then NaN else Inf (s = (0 < x)))"
| "fmul (Inf s) (Finite y) = (if y = 0 then NaN else Inf (s = (0 < y)))"
| "fmul (Inf s) (Inf t) = Inf (s = t)"
| "fmul NaN _ = NaN"
| "fmul _ NaN = NaN"

fun fdiv :: "npfloat \<Rightarrow> npfloat \<Rightarrow> npfloat" where
  "fdiv (Finite x) (Finite y) =
     (if y \<noteq> 0 then Finite (x / y) else if x = 0 then NaN else Inf (0 < x))"
| "fdiv (Finite x) (Inf s) = Finite 0"
| "fdiv (Inf s) (Finite y) = Inf (s = (0 \<le> y))"
| "fdiv (Inf s) (Inf t) = NaN"
| "fdiv NaN _ = NaN"
| "fdiv _ NaN = NaN"


text \<open>The comparison \<^verbatim>\<open><=\<close> of floats: false as soon as one side is NaN.\<close>

fun fle :: "npfloat \<Rightarrow> npfloat \<Rightarrow> bool" where
  "fle (Finite x) (Finite y) = (x \<le> y)"
| "fle (Finite x) (Inf s) = s"
| "fle (Inf s) (Finite y) = (\<not> s)"
| "fle (Inf s) (Inf t) = (s \<longrightarrow> t)"
| "fle NaN _ = False"
| "fle _ NaN = False"

text \<open>
  \<^verbatim>\<open>Series.round(2)\<close> is numpy's \<^verbatim>\<open>round\<close>: the value times 100, rounded to the nearest
  integer with ties going to the even one, divided by 100. Infinities and NaN stay.
  The model rounds the exact real. numpy rounds the double nearest to the product, so
  its result can differ where the product is within a rounding error of a tie, and it
  overflows to an infinity on the largest doubles. The theorems below rest on where the
  rounding takes place, on its being monotone, which numpy's rounding is too, and on its
  value at a few numbers that are away from a tie.
\<close>

definition rint :: "real \<Rightarrow> real" where
  "rint y =
     (let n = \<lfloor>y\<rfloor>; d = y - of_int n
      in if d < 1 / 2 then of_int n
         else if 1 / 2 < d then of_int n + 1
         else if even n then of_int n else of_int n + 1)"

definition round2 :: "real \<Rightarrow> real" where
  "round2 x = rint (x * 100) / 100"

fun fround2 :: "npfloat \<Rightarrow> npfloat" where
  "fround2 (Finite x) = Finite (round2 x)"
| "fround2 (Inf s) = Inf s"
| "fround2 NaN = NaN"


section \<open>Geometry and table rows\<close>

text \<open>
  The script \<^verbatim>\<open>standalone-code.py\<close> is a straight-line pipeline over GeoDataFrames.
  A geometric object is modelled by the set of points it is made of, as the Shapely
  manual defines its set-theoretic operations: \<^verbatim>\<open>a - b\<close> is the set difference and
  \<^verbatim>\<open>a.intersects(b)\<close> holds when the two objects share a point. Coordinates are exact
  reals. Shapely keeps a polygon with its boundary: where the set difference of two
  polygons misses its boundary along the cut, the object that Shapely holds has it.
  The predicate \<open>intersects\<close> below therefore compares the closures.
  A data frame is the list of its rows; the column \<^verbatim>\<open>geometry\<close> is common to every
  GeoDataFrame, so every row type extends \<open>geo_row\<close>.
\<close>

type_synonym point = "real \<times> real"
type_synonym geom = "point set"

record 'g geo_row =
  geometry :: 'g

text \<open>A row of \<^verbatim>\<open>cyclone_gis\<close> after line 75: the columns \<^verbatim>\<open>wind_speed\<close> and \<^verbatim>\<open>geometry\<close>.\<close>

record cyclone_row = "geom geo_row" +
  wind_speed :: real

datatype error = ValueError

section \<open>Band partitioning (lines 79-83)\<close>

text \<open>
  \<^verbatim>\<open>Series.item()\<close> returns the only element of a series and raises \<^verbatim>\<open>ValueError\<close>
  when the series has no element or more than one.
\<close>

fun item :: "'a list \<Rightarrow> error + 'a" where
  "item [x] = Inr x"
| "item _ = Inl ValueError"

text \<open>\<^verbatim>\<open>cyclone_gis[cyclone_gis.wind_speed == w].geometry\<close>\<close>

definition geometry_at :: "cyclone_row list \<Rightarrow> real \<Rightarrow> geom list" where
  "geometry_at cyclone_gis w = map geometry (filter (\<lambda>r. wind_speed r = w) cyclone_gis)"

text \<open>\<^verbatim>\<open>cyclone_gis.loc[cyclone_gis.wind_speed == w, 'geometry'] = [g]\<close>\<close>

definition set_geometry_at :: "real \<Rightarrow> geom \<Rightarrow> cyclone_row list \<Rightarrow> cyclone_row list" where
  "set_geometry_at w g cyclone_gis =
     map (\<lambda>r. if wind_speed r = w then r\<lparr>geometry := g\<rparr> else r) cyclone_gis"

text \<open>
  Lines 79-83. The three \<^verbatim>\<open>.item()\<close> calls run first, in the order 60, 90, 120; then
  the row of 90 and the row of 60 get their new geometry. Every other row, the one of
  120 included, is left as it is.
\<close>

definition band_partition :: "cyclone_row list \<Rightarrow> error + cyclone_row list" where
  "band_partition cyclone_gis =
     (case item (geometry_at cyclone_gis 60) of
        Inl e \<Rightarrow> Inl e
      | Inr poly60 \<Rightarrow>
     (case item (geometry_at cyclone_gis 90) of
        Inl e \<Rightarrow> Inl e
      | Inr poly90 \<Rightarrow>
     (case item (geometry_at cyclone_gis 120) of
        Inl e \<Rightarrow> Inl e
      | Inr poly120 \<Rightarrow>
          Inr (set_geometry_at 60 (poly60 - poly90)
                (set_geometry_at 90 (poly90 - poly120) cyclone_gis)))))"


text \<open>An axis-parallel closed rectangle, used for concrete inputs.\<close>

definition box :: "real \<Rightarrow> real \<Rightarrow> real \<Rightarrow> real \<Rightarrow> geom" where
  "box x0 x1 y0 y1 = {p. x0 \<le> fst p \<and> fst p \<le> x1 \<and> y0 \<le> snd p \<and> snd p \<le> y1}"

definition cyc :: "real \<Rightarrow> geom \<Rightarrow> cyclone_row" where
  "cyc w g = \<lparr>geometry = g, wind_speed = w\<rparr>"

text \<open>
  The interior of a point set, for the claim about bands sharing no interior point.
\<close>

definition interior_of :: "geom \<Rightarrow> geom" where
  "interior_of S = {x. \<exists>T. open T \<and> x \<in> T \<and> T \<subseteq> S}"

text \<open>
  The closure of a point set, and \<^verbatim>\<open>a.intersects(b)\<close> for the closed objects that Shapely
  holds: a pair that only touches along a boundary intersects.
\<close>

definition closure_of :: "geom \<Rightarrow> geom" where
  "closure_of S = - interior_of (- S)"

definition intersects :: "geom \<Rightarrow> geom \<Rightarrow> bool" where
  "intersects g h = (closure_of g \<inter> closure_of h \<noteq> {})"

text \<open>
  Threshold polygons, sorted ascending by threshold, are nested when each polygon
  contains every polygon that comes after it.
\<close>

fun nested :: "cyclone_row list \<Rightarrow> bool" where
  "nested [] = True"
| "nested (r # rs) = ((\<forall>r' \<in> set rs. geometry r' \<subseteq> geometry r) \<and> nested rs)"

text \<open>
  The two properties asked of a band set: no two distinct bands share an interior point,
  and the bands together make up a given geometry.
\<close>

definition bands_interior_disjoint :: "cyclone_row list \<Rightarrow> bool" where
  "bands_interior_disjoint bands =
     (\<forall>i < length bands. \<forall>j < length bands.
        i \<noteq> j \<longrightarrow> interior_of (geometry (bands ! i) \<inter> geometry (bands ! j)) = {})"

definition bands_union :: "cyclone_row list \<Rightarrow> geom" where
  "bands_union bands = \<Union> (set (map geometry bands))"

section \<open>Raster to points (lines 18-26)\<close>

text \<open>
  \<^verbatim>\<open>img.read(1, masked=True)\<close> is a two-dimensional masked array: a list of rows whose
  cells are \<open>None\<close> where the mask hides the no-data value. A cell is addressed by
  (row, column).
\<close>

type_synonym raster = "real option list list"
type_synonym cell = "nat \<times> nat"

definition value_at :: "raster \<Rightarrow> cell \<Rightarrow> real option" where
  "value_at img p =
     (case p of (r, c) \<Rightarrow>
        if r < length img \<and> c < length (img ! r) then img ! r ! c else None)"

definition cells :: "raster \<Rightarrow> cell list" where
  "cells img = concat (map (\<lambda>r. map (\<lambda>c. (r, c)) [0..<length (img ! r)]) [0..<length img])"

text \<open>
  \<^verbatim>\<open>rasterio.features.shapes\<close> yields one (shape, value) pair for each connected region
  of unmasked cells that hold the same value; two cells are connected when they share an
  edge (\<^verbatim>\<open>connectivity=4\<close>, the default). The model computes the region of a cell by
  adding, round after round, the cells of that value next to the region; as many rounds
  as the raster has cells reach all of it. A shape is kept as the list of its cells.
  The regions come in the order of their first cell; rasterio's order is not modelled.
  The cells are reals and two cells hold the same value when they are equal. The library
  works on single-precision values, takes values that differ in their last few bits for
  the same and yields single-precision weights: it merges at least the cells this model
  merges.
\<close>

definition adjacent :: "cell \<Rightarrow> cell \<Rightarrow> bool" where
  "adjacent p q =
     (case (p, q) of ((r, c), (r', c')) \<Rightarrow>
        (r = r' \<and> (c = Suc c' \<or> c' = Suc c)) \<or> (c = c' \<and> (r = Suc r' \<or> r' = Suc r)))"

definition grow :: "raster \<Rightarrow> real \<Rightarrow> cell list \<Rightarrow> cell list" where
  "grow img v S =
     S @ filter (\<lambda>q. q \<notin> set S \<and> value_at img q = Some v \<and> (\<exists>p \<in> set S. adjacent p q))
           (cells img)"

definition region :: "raster \<Rightarrow> cell \<Rightarrow> real \<Rightarrow> cell list" where
  "region img p v = (grow img v ^^ length (cells img)) [p]"

fun regions :: "raster \<Rightarrow> cell list \<Rightarrow> cell list \<Rightarrow> (cell list \<times> real) list" where
  "regions img [] seen = []"
| "regions img (p # ps) seen =
     (case value_at img p of
        None \<Rightarrow> regions img ps seen
      | Some v \<Rightarrow>
          if p \<in> set seen then regions img ps seen
          else (region img p v, v) # regions img ps (region img p v @ seen))"

definition shapes :: "raster \<Rightarrow> (cell list \<times> real) list" where
  "shapes img = regions img (cells img) []"

text \<open>
  \<^verbatim>\<open>img.transform\<close> is an affine map from (column, row) to coordinates. The shape of
  a region is the union of the squares of its cells, so its centroid is the image of
  the mean of the centres of these cells.
\<close>

datatype affine = Affine real real real real real real

fun apply_affine :: "affine \<Rightarrow> real \<times> real \<Rightarrow> point" where
  "apply_affine (Affine a b c d e f) (col, row) = (a * col + b * row + c, d * col + e * row + f)"

definition centroid :: "affine \<Rightarrow> cell list \<Rightarrow> point" where
  "centroid transform R =
     apply_affine transform
       (sum_list (map (\<lambda>p. real (snd p) + 1 / 2) R) / real (length R),
        sum_list (map (\<lambda>p. real (fst p) + 1 / 2) R) / real (length R))"

text \<open>A row of \<^verbatim>\<open>pop_gis\<close>: a point and the value of its shape.\<close>

record 'g pop_row = "'g geo_row" +
  Total_population_by_adm2 :: real

definition pop_gis :: "raster \<Rightarrow> affine \<Rightarrow> point pop_row list" where
  "pop_gis img transform =
     map (\<lambda>(R, v). \<lparr>geometry = centroid transform R, Total_population_by_adm2 = v\<rparr>) (shapes img)"

text \<open>The sum of the unmasked cells of the raster.\<close>

definition raster_total :: "raster \<Rightarrow> real" where
  "raster_total img = sum_list (map (\<lambda>p. case value_at img p of None \<Rightarrow> 0 | Some v \<Rightarrow> v) (cells img))"

section \<open>Population by administrative unit (lines 29-56)\<close>

text \<open>A row of \<^verbatim>\<open>adm\<close> after line 37.\<close>

record adm_row = "geom geo_row" +
  ADM0_EN :: string
  ADM1_EN :: string
  ADM2_PCODE :: string
  ADM2_EN :: string

text \<open>
  A row of \<^verbatim>\<open>adm_sjoin_pop\<close> and of \<^verbatim>\<open>pop_by_adm\<close>: the geometry of the unit, the
  population column and \<^verbatim>\<open>index_left\<close>, the position of the unit in \<^verbatim>\<open>adm\<close>. The four
  name columns are copied through unchanged (aggregated with \<^verbatim>\<open>'first'\<close>) and no later
  line reads them; the model leaves them out of the joined rows.
\<close>

record pop_adm_row = "geom pop_row" +
  index_left :: nat

text \<open>
  Line 43, \<^verbatim>\<open>adm.sjoin(pop_gis, how='inner', predicate="intersects")\<close>: one row for
  each unit and each point the unit's geometry intersects, that is, each point in it.
\<close>

definition adm_sjoin_pop :: "adm_row list \<Rightarrow> point pop_row list \<Rightarrow> pop_adm_row list" where
  "adm_sjoin_pop adm pop =
     concat (map (\<lambda>i.
        map (\<lambda>p. \<lparr>geometry = geometry (adm ! i),
                  Total_population_by_adm2 = Total_population_by_adm2 p,
                  index_left = i\<rparr>)
            (filter (\<lambda>p. geometry p \<in> geometry (adm ! i)) pop))
       [0..<length adm])"

text \<open>
  Lines 53-56, \<^verbatim>\<open>groupby('index_left').aggregate(ops)\<close>: one row for each value of
  \<^verbatim>\<open>index_left\<close> that occurs, in ascending order; the population column is summed
  and every other column is taken from the first row of the group.
\<close>

definition pop_by_adm :: "pop_adm_row list \<Rightarrow> pop_adm_row list" where
  "pop_by_adm rows =
     map (\<lambda>k. let g = filter (\<lambda>r. index_left r = k) rows
              in (hd g)\<lparr>Total_population_by_adm2 := sum_list (map Total_population_by_adm2 g)\<rparr>)
         (sort (remdups (map index_left rows)))"

text \<open>The points that unit \<open>i\<close> intersects, and a unit with a given geometry.\<close>

definition matching :: "adm_row list \<Rightarrow> point pop_row list \<Rightarrow> nat \<Rightarrow> point pop_row list" where
  "matching adm pop i = filter (\<lambda>p. geometry p \<in> geometry (adm ! i)) pop"

definition unit_row :: "geom \<Rightarrow> adm_row" where
  "unit_row g = \<lparr>geometry = g, ADM0_EN = ''Madagascar'', ADM1_EN = ''Analamanga'',
     ADM2_PCODE = ''MG11101'', ADM2_EN = ''Antananarivo''\<rparr>"

section \<open>Overlay and apportionment (lines 99-111)\<close>

text \<open>
  The two areas that line 109 divides are measured by the libraries on different
  objects, and both are parameters of the model, with nothing assumed about them:
  \<^item> \<open>overlapping_area u b\<close> is what lines 104-105 give for the unit row \<open>u\<close> and the band
    row \<open>b\<close>: \<open>None\<close> when \<^verbatim>\<open>gpd.overlay\<close> returns no row for the pair (the geometries do
    not meet, or their intersection is only a line or a point, which the default
    \<^verbatim>\<open>keep_geom_type\<close> drops), and otherwise \<^verbatim>\<open>to_crs(8441).area\<close> of the geometry the
    overlay returns, which the library builds from geometries it has repaired;
  \<^item> \<open>unit_area u\<close> is \<^verbatim>\<open>to_crs(8441).area\<close> of the geometry of the unit as it was read.

  \<^verbatim>\<open>overlay_data.overlapping_area\<close> is a series indexed by (index_left, wind_speed).
  A series is the list of its (index, value) pairs, read with \<open>map_of\<close>.
\<close>

definition overlay_data ::
  "(pop_adm_row \<Rightarrow> cyclone_row \<Rightarrow> real option) \<Rightarrow> pop_adm_row list \<Rightarrow> cyclone_row list
     \<Rightarrow> ((nat \<times> real) \<times> real) list" where
  "overlay_data overlapping_area pba cyclone_gis =
     concat (map (\<lambda>u.
        concat (map (\<lambda>b. case overlapping_area u b of
                            None \<Rightarrow> []
                          | Some a \<Rightarrow> [((index_left u, wind_speed b), a)])
                 cyclone_gis))
       pba)"

text \<open>
  A row of \<^verbatim>\<open>final_data\<close> after line 108: \<open>index\<close> is the pair (index_left, wind_speed),
  the geometry is the one of the unit.
\<close>

record final_row = "geom pop_row" +
  index :: "nat \<times> real"
  fraction :: npfloat

text \<open>
  Lines 99-109. The rows are those of the join of line 99 (a unit and a band that
  intersect). The division of line 109 aligns the two series on the index: a row whose
  index is not in \<^verbatim>\<open>overlay_data\<close> gets NaN. The division raises when an index occurs
  twice; \<open>script\<close> below has that branch.
\<close>

definition final_data_fraction ::
  "(pop_adm_row \<Rightarrow> real) \<Rightarrow> (pop_adm_row \<Rightarrow> cyclone_row \<Rightarrow> real option)
     \<Rightarrow> pop_adm_row list \<Rightarrow> cyclone_row list \<Rightarrow> final_row list" where
  "final_data_fraction unit_area overlapping_area pba cyclone_gis =
     concat (map (\<lambda>u.
        map (\<lambda>b. \<lparr>geometry = geometry u,
                  Total_population_by_adm2 = Total_population_by_adm2 u,
                  index = (index_left u, wind_speed b),
                  fraction =
                    (case map_of (overlay_data overlapping_area pba cyclone_gis)
                            (index_left u, wind_speed b) of
                       None \<Rightarrow> NaN
                     | Some a \<Rightarrow> fdiv (Finite a) (Finite (unit_area u)))\<rparr>)
            (filter (\<lambda>b. intersects (geometry u) (geometry b)) cyclone_gis))
       pba)"

text \<open>Line 111: the column \<^verbatim>\<open>fraction\<close> becomes the population at the band.\<close>

definition final_data ::
  "(pop_adm_row \<Rightarrow> real) \<Rightarrow> (pop_adm_row \<Rightarrow> cyclone_row \<Rightarrow> real option)
     \<Rightarrow> pop_adm_row list \<Rightarrow> cyclone_row list \<Rightarrow> final_row list" where
  "final_data unit_area overlapping_area pba cyclone_gis =
     map (\<lambda>r. r\<lparr>fraction := fmul (fraction r) (Finite (Total_population_by_adm2 r))\<rparr>)
         (final_data_fraction unit_area overlapping_area pba cyclone_gis)"

text \<open>
  The fraction of line 109 for a unit row and a band row when the index names the pair:
  the area of the overlay row over the area of the unit, NaN when the overlay has no row
  for the pair.
\<close>

definition fraction_of ::
  "(pop_adm_row \<Rightarrow> real) \<Rightarrow> (pop_adm_row \<Rightarrow> cyclone_row \<Rightarrow> real option)
     \<Rightarrow> pop_adm_row \<Rightarrow> cyclone_row \<Rightarrow> npfloat" where
  "fraction_of unit_area overlapping_area u b =
     (case overlapping_area u b of
        None \<Rightarrow> NaN
      | Some a \<Rightarrow> fdiv (Finite a) (Finite (unit_area u)))"

section \<open>The result table (lines 114-128)\<close>

text \<open>
  \<^verbatim>\<open>final_data[final_data.wind_speed == w].fraction\<close>: a series indexed by index_left.
\<close>

definition final_kmph :: "final_row list \<Rightarrow> real \<Rightarrow> (nat \<times> npfloat) list" where
  "final_kmph fd w = map (\<lambda>r. (fst (index r), fraction r)) (filter (\<lambda>r. snd (index r) = w) fd)"

text \<open>
  The value of the series \<^verbatim>\<open>final_60kmph\<close> (or 90, 120) for a unit, before the rounding of
  lines 120-124; NaN when the series has no entry for the unit.
\<close>

definition population_at_band :: "final_row list \<Rightarrow> real \<Rightarrow> nat \<Rightarrow> npfloat" where
  "population_at_band fd w i = (case map_of (final_kmph fd w) i of None \<Rightarrow> NaN | Some x \<Rightarrow> x)"

text \<open>
  Lines 119-124: the column starts as NaN; the rows whose index is in the series get
  the value of the series, rounded to two decimals.
\<close>

definition people_at :: "final_row list \<Rightarrow> real \<Rightarrow> nat \<Rightarrow> npfloat" where
  "people_at fd w i = (case map_of (final_kmph fd w) i of None \<Rightarrow> NaN | Some x \<Rightarrow> fround2 x)"

text \<open>Lines 126-128: the stored column, divided by the total, times 100, rounded.\<close>

definition percentage :: "npfloat \<Rightarrow> real \<Rightarrow> npfloat" where
  "percentage people population = fround2 (fmul (fdiv people (Finite population)) (Finite 100))"

text \<open>A row of \<^verbatim>\<open>pop_by_adm\<close> after line 128.\<close>

record out_row = pop_adm_row +
  People_at_60kmph :: npfloat
  People_at_90kmph :: npfloat
  People_at_120kmph :: npfloat
  pct_people_at_60kmph :: npfloat
  pct_people_at_90kmph :: npfloat
  pct_people_at_120kmph :: npfloat

definition assemble :: "pop_adm_row list \<Rightarrow> final_row list \<Rightarrow> out_row list" where
  "assemble pba fd =
     map (\<lambda>u.
        \<lparr>geometry = geometry u,
         Total_population_by_adm2 = Total_population_by_adm2 u,
         index_left = index_left u,
         People_at_60kmph = people_at fd 60 (index_left u),
         People_at_90kmph = people_at fd 90 (index_left u),
         People_at_120kmph = people_at fd 120 (index_left u),
         pct_people_at_60kmph =
           percentage (people_at fd 60 (index_left u)) (Total_population_by_adm2 u),
         pct_people_at_90kmph =
           percentage (people_at fd 90 (index_left u)) (Total_population_by_adm2 u),
         pct_people_at_120kmph =
           percentage (people_at fd 120 (index_left u)) (Total_population_by_adm2 u)\<rparr>)
       pba"

section \<open>The whole script\<close>

text \<open>
  The inputs are what lines 18, 29 and 58-69 read: the masked raster and its transform,
  the rows of the administrative units, and the rows of the cyclone polygons whose label
  is a wind speed, with that speed as a number. Line 70 sorts them by wind speed.
  Lines 85-96 print the population by wind speed and change nothing that a later line
  reads; they are left out. The computation raises \<^verbatim>\<open>ValueError\<close> in three places:
  \<^item> line 22 unpacks \<^verbatim>\<open>zip(*shapes)\<close> into two names, which fails when the raster has no
    shape;
  \<^item> \<^verbatim>\<open>.item()\<close> in lines 79-81;
  \<^item> line 109, when an index (index_left, wind_speed) occurs twice in one of the two
    tables: pandas aligns the two series on the index and cannot assign the quotient to
    the column when a label is repeated. (pandas skips the alignment when the two tables
    list the same index in the same order. The order in which the libraries return the
    rows is not modelled, and for a repeated index the model takes the raise. After
    lines 79-81 a repeated index has a wind speed other than 60, 90 and 120.)
\<close>

definition script ::
  "(pop_adm_row \<Rightarrow> real) \<Rightarrow> (pop_adm_row \<Rightarrow> cyclone_row \<Rightarrow> real option)
     \<Rightarrow> raster \<Rightarrow> affine \<Rightarrow> adm_row list \<Rightarrow> cyclone_row list \<Rightarrow> error + out_row list" where
  "script unit_area overlapping_area img transform adm cyclone =
     (if shapes img = [] then Inl ValueError
      else
        let pba = pop_by_adm (adm_sjoin_pop adm (pop_gis img transform))
        in case band_partition (sort_key wind_speed cyclone) of
             Inl e \<Rightarrow> Inl e
           | Inr cyclone_gis \<Rightarrow>
               if distinct (map index
                     (final_data_fraction unit_area overlapping_area pba cyclone_gis))
                  \<and> distinct (map fst (overlay_data overlapping_area pba cyclone_gis))
               then Inr (assemble pba (final_data unit_area overlapping_area pba cyclone_gis))
               else Inl ValueError)"

section \<open>Concrete runs\<close>

text \<open>
  Areas for concrete inputs. \<open>grid_area n g\<close> is the number of unit squares of the grid
  \<open>[0, n] \<times> [0, n]\<close> whose centre lies in \<open>g\<close>: the plane area of every geometry made of
  such squares. The overlay has a row for a pair when the intersection has such an area.
\<close>

definition grid_centres :: "nat \<Rightarrow> point list" where
  "grid_centres n =
     concat (map (\<lambda>i. map (\<lambda>j. (real i + 1 / 2, real j + 1 / 2)) [0..<n]) [0..<n])"

definition grid_area :: "nat \<Rightarrow> geom \<Rightarrow> real" where
  "grid_area n g = real (length (filter (\<lambda>p. p \<in> g) (grid_centres n)))"

definition example_unit_area :: "pop_adm_row \<Rightarrow> real" where
  "example_unit_area u = grid_area 4 (geometry u)"

definition example_overlapping_area :: "pop_adm_row \<Rightarrow> cyclone_row \<Rightarrow> real option" where
  "example_overlapping_area u b =
     (if 0 < grid_area 4 (geometry u \<inter> geometry b)
      then Some (grid_area 4 (geometry u \<inter> geometry b)) else None)"

text \<open>
  The first run: a raster of three rows and two columns with three unmasked cells (the
  transform is the identity, so the points are the centres of the cells); three units,
  the third without any point; three nested wind polygons, given unsorted. The bands
  are the strips \<open>0 \<le> x < 1\<close>, \<open>1 \<le> x < 3\<close> and \<open>3 \<le> x \<le> 4\<close>; the first two units lie
  half in the first and half in the second strip.
\<close>

definition example_raster :: raster where
  "example_raster = [[Some (1 / 2), Some (64 / 125)], [None, None], [Some 0, None]]"

definition example_adm :: "adm_row list" where
  "example_adm = [unit_row (box 0 2 0 1), unit_row (box 0 2 2 3), unit_row (box 2 4 3 4)]"

definition example_cyclone :: "cyclone_row list" where
  "example_cyclone = [cyc 120 (box 3 4 0 4), cyc 60 (box 0 4 0 4), cyc 90 (box 1 4 0 4)]"

definition example_pop_by_adm :: "pop_adm_row list" where
  "example_pop_by_adm =
     pop_by_adm (adm_sjoin_pop example_adm (pop_gis example_raster (Affine 1 0 0 0 1 0)))"

definition example_bands :: "cyclone_row list" where
  "example_bands =
     [cyc 60 (box 0 4 0 4 - box 1 4 0 4), cyc 90 (box 1 4 0 4 - box 3 4 0 4),
      cyc 120 (box 3 4 0 4)]"

definition example_final_data :: "final_row list" where
  "example_final_data =
     final_data example_unit_area example_overlapping_area example_pop_by_adm example_bands"

definition example_output :: "out_row list" where
  "example_output =
     [\<lparr>geometry = box 0 2 0 1, Total_population_by_adm2 = 253 / 250, index_left = 0,
       People_at_60kmph = Finite (51 / 100), People_at_90kmph = Finite (51 / 100),
       People_at_120kmph = NaN,
       pct_people_at_60kmph = Finite (252 / 5), pct_people_at_90kmph = Finite (252 / 5),
       pct_people_at_120kmph = NaN\<rparr>,
      \<lparr>geometry = box 0 2 2 3, Total_population_by_adm2 = 0, index_left = 1,
       People_at_60kmph = Finite 0, People_at_90kmph = Finite 0,
       People_at_120kmph = NaN,
       pct_people_at_60kmph = NaN, pct_people_at_90kmph = NaN,
       pct_people_at_120kmph = NaN\<rparr>]"

text \<open>
  The second run: the same wind polygons and one unit, the square \<open>[2, 3] \<times> [0, 1]\<close>. The
  raster has one cell, of value 7, and its transform puts the centre of the cell at
  (2.5, 0.5), inside the unit. The unit lies in the band of 90 and shares the edge
  \<open>x = 3\<close> with the band of 120: the two intersect, and their intersection is a line, for
  which the overlay has no row. The overlay has one row, for the band of 90, of area \<open>a\<close>.
\<close>

definition touching_raster :: raster where
  "touching_raster = [[Some 7]]"

definition touching_adm :: "adm_row list" where
  "touching_adm = [unit_row (box 2 3 0 1)]"

definition touching_pop_by_adm :: "pop_adm_row list" where
  "touching_pop_by_adm =
     pop_by_adm (adm_sjoin_pop touching_adm (pop_gis touching_raster (Affine 1 0 2 0 1 0)))"

definition touching_overlapping_area :: "real \<Rightarrow> pop_adm_row \<Rightarrow> cyclone_row \<Rightarrow> real option" where
  "touching_overlapping_area a u b = (if wind_speed b = 90 then Some a else None)"





section \<open>Properties of the join and the grouping\<close>

lemma filter_concat_keyed:
  assumes "distinct ks" and "\<And>i x. x \<in> set (f i) \<Longrightarrow> key x = i"
  shows "filter (\<lambda>r. key r = k) (concat (map f ks)) = (if k \<in> set ks then f k else [])"
  using assms(1)
proof (induction ks)
  case Nil
  then show ?case by simp
next
  case (Cons i ks)
  have a: "filter (\<lambda>r. key r = k) (f i) = (if i = k then f i else [])"
    using assms(2)[of _ i] by (auto simp: filter_empty_conv intro: filter_True)
  from Cons show ?case by (auto simp: a)
qed

lemma sjoin_group:
  "filter (\<lambda>r. index_left r = k) (adm_sjoin_pop adm pop) =
     (if k < length adm
      then map (\<lambda>p. \<lparr>geometry = geometry (adm ! k),
                  Total_population_by_adm2 = Total_population_by_adm2 p,
                  index_left = k\<rparr>) (matching adm pop k)
      else [])"
  unfolding adm_sjoin_pop_def matching_def
  by (subst filter_concat_keyed) auto

lemma sjoin_keys:
  "k \<in> index_left ` set (adm_sjoin_pop adm pop) \<longleftrightarrow> k < length adm \<and> matching adm pop k \<noteq> []"
proof -
  have "k \<in> index_left ` set (adm_sjoin_pop adm pop) \<longleftrightarrow>
          filter (\<lambda>r. index_left r = k) (adm_sjoin_pop adm pop) \<noteq> []"
    by (auto simp: filter_empty_conv)
  also have "\<dots> \<longleftrightarrow> k < length adm \<and> matching adm pop k \<noteq> []"
    by (simp only: sjoin_group) simp
  finally show ?thesis .
qed

lemma pop_by_adm_keys: "map index_left (pop_by_adm rows) = sort (remdups (map index_left rows))"
proof -
  have "\<And>k. k \<in> set (map index_left rows) \<Longrightarrow> index_left (hd (filter (\<lambda>r. index_left r = k) rows)) = k"
  proof -
    fix k assume "k \<in> set (map index_left rows)"
    then have "filter (\<lambda>r. index_left r = k) rows \<noteq> []" by (auto simp: filter_empty_conv)
    then have "hd (filter (\<lambda>r. index_left r = k) rows) \<in> set (filter (\<lambda>r. index_left r = k) rows)"
      by (rule hd_in_set)
    then show "index_left (hd (filter (\<lambda>r. index_left r = k) rows)) = k" by simp
  qed
  then show ?thesis
    unfolding pop_by_adm_def by (auto simp: Let_def intro!: map_idI)
qed

lemma pop_by_adm_distinct: "distinct (map index_left (pop_by_adm rows))"
  by (simp add: pop_by_adm_keys)

lemma pop_by_adm_row:
  assumes "u \<in> set (pop_by_adm rows)"
  shows "Total_population_by_adm2 u =
           sum_list (map Total_population_by_adm2 (filter (\<lambda>r. index_left r = index_left u) rows))
         \<and> geometry u = geometry (hd (filter (\<lambda>r. index_left r = index_left u) rows))
         \<and> index_left u \<in> set (map index_left rows)"
proof -
  from assms obtain k where k: "k \<in> set (map index_left rows)"
    and u: "u = (hd (filter (\<lambda>r. index_left r = k) rows))\<lparr>Total_population_by_adm2 := sum_list (map Total_population_by_adm2 (filter (\<lambda>r. index_left r = k) rows))\<rparr>"
    unfolding pop_by_adm_def by (auto simp: Let_def)
  from k have "filter (\<lambda>r. index_left r = k) rows \<noteq> []" by (auto simp: filter_empty_conv)
  then have "hd (filter (\<lambda>r. index_left r = k) rows) \<in> set (filter (\<lambda>r. index_left r = k) rows)"
    by (rule hd_in_set)
  then have "index_left u = k" using u by simp
  with u k show ?thesis by simp
qed

lemma item_Inr: "item xs = Inr x \<longleftrightarrow> xs = [x]"
  by (cases xs rule: item.cases) auto

lemma filter_distinct_key:
  "distinct (map f xs) \<Longrightarrow> x \<in> set xs \<Longrightarrow> filter (\<lambda>y. f y = f x) xs = [x]"
proof (induction xs)
  case Nil
  then show ?case by simp
next
  case (Cons a xs)
  show ?case
  proof (cases "a = x")
    case True
    with Cons.prems have "\<forall>y \<in> set xs. f y \<noteq> f x" by (auto simp: image_def)
    then have "filter (\<lambda>y. f y = f x) xs = []" by (simp add: filter_empty_conv)
    with True show ?thesis by simp
  next
    case False
    with Cons.prems have x: "x \<in> set xs" and d: "distinct (map f xs)" by auto
    from Cons.prems x have "f a \<noteq> f x" by force
    with Cons.IH[OF d x] show ?thesis by simp
  qed
qed

lemma sjoin_total:
  "sum_list (map Total_population_by_adm2 (filter (\<lambda>r. index_left r = k) (adm_sjoin_pop adm pop))) =
     (if k < length adm then sum_list (map Total_population_by_adm2 (matching adm pop k)) else 0)"
  by (simp only: sjoin_group) (simp add: comp_def)

lemma shapes_2x2: "shapes [[Some 10, Some 20], [Some 30, Some 40]] =
   [([(0, 0)], 10), ([(0, 1)], 20), ([(1, 0)], 30), ([(1, 1)], 40)]"
  by (simp add: shapes_def cells_def value_at_def region_def grow_def adjacent_def upt_rec
        numeral_2_eq_2)

lemma pop_gis_2x2: "pop_gis [[Some 10, Some 20], [Some 30, Some 40]] (Affine 1 0 0 0 1 0) =
   [\<lparr>geometry = (1/2, 1/2), Total_population_by_adm2 = 10\<rparr>,
    \<lparr>geometry = (3/2, 1/2), Total_population_by_adm2 = 20\<rparr>,
    \<lparr>geometry = (1/2, 3/2), Total_population_by_adm2 = 30\<rparr>,
    \<lparr>geometry = (3/2, 3/2), Total_population_by_adm2 = 40\<rparr>]"
  by (simp add: pop_gis_def shapes_2x2 centroid_def)

section \<open>Raster sampling\<close>

text \<open>
  Claim C1 (mass conservation): the weights of the points of \<^verbatim>\<open>pop_gis\<close> sum to the sum
  of the unmasked cells of the raster. The comments of lines 19-25 take every shape for
  the square of one pixel, but \<^verbatim>\<open>rasterio.features.shapes\<close> merges neighbouring cells of
  equal value into one shape, which then counts once. On the raster of one row with the
  two cells 5 and 5 the script makes one point of weight 5, and the cells sum to 10.
\<close>

theorem equal_neighbours_counted_once:
  "map Total_population_by_adm2 (pop_gis [[Some 5, Some 5]] (Affine 1 0 0 0 1 0)) = [5]
   \<and> sum_list (map Total_population_by_adm2 (pop_gis [[Some 5, Some 5]] (Affine 1 0 0 0 1 0))) = 5
   \<and> raster_total [[Some 5, Some 5]] = 10"
  by (simp add: pop_gis_def shapes_def cells_def value_at_def region_def grow_def adjacent_def
        raster_total_def)

section \<open>Spatial aggregation\<close>

text \<open>
  Claim C6, as stated: for every polygon the aggregation yields a total, the sum of the
  weights of the points matching the polygon. The join of line 43 is an inner join, so a
  polygon that matches no point gets no row and no total: below, the second unit has no
  row in \<^verbatim>\<open>pop_by_adm\<close>.
\<close>

theorem unmatched_polygon_has_no_total:
  "pop_by_adm (adm_sjoin_pop [unit_row (box 0 2 0 2), unit_row (box 5 6 5 6)]
      (pop_gis [[Some 10, Some 20], [Some 30, Some 40]] (Affine 1 0 0 0 1 0))) =
   [\<lparr>geometry = box 0 2 0 2, Total_population_by_adm2 = 100, index_left = 0\<rparr>]"
  by (simp add: pop_gis_2x2 adm_sjoin_pop_def pop_by_adm_def unit_row_def box_def upt_rec)

text \<open>
  Claim C6, amended: for every polygon that matches at least one point,
  \<^verbatim>\<open>pop_by_adm\<close> has exactly one row, and its total is the sum of the weights of exactly
  the points in the polygon, each counted once for this polygon.
\<close>

theorem pop_by_adm_total:
  assumes "i < length adm" and "matching adm pop i \<noteq> []"
  shows "\<exists>u. filter (\<lambda>u. index_left u = i) (pop_by_adm (adm_sjoin_pop adm pop)) = [u]
            \<and> Total_population_by_adm2 u = sum_list (map Total_population_by_adm2 (matching adm pop i))"
proof -
  let ?rows = "adm_sjoin_pop adm pop"
  from assms have "i \<in> index_left ` set ?rows" by (simp add: sjoin_keys)
  then have "i \<in> set (map index_left (pop_by_adm ?rows))" by (simp add: pop_by_adm_keys)
  then obtain u where u: "u \<in> set (pop_by_adm ?rows)" and i: "index_left u = i" by auto
  have "filter (\<lambda>y. index_left y = index_left u) (pop_by_adm ?rows) = [u]"
    using pop_by_adm_distinct u by (rule filter_distinct_key)
  moreover have "Total_population_by_adm2 u = sum_list (map Total_population_by_adm2 (matching adm pop i))"
    using pop_by_adm_row[OF u] assms(1) by (simp add: i sjoin_total)
  ultimately show ?thesis using i by auto
qed

text \<open>
  Scenario A of the specification: the 2x2 raster with the values 10, 20, 30, 40 gives
  four points, and one polygon covering them reports the total 100.
\<close>

theorem pop_by_adm_total_witness:
  "\<exists>u. filter (\<lambda>u. index_left u = 0)
         (pop_by_adm (adm_sjoin_pop [unit_row (box 0 2 0 2)]
            (pop_gis [[Some 10, Some 20], [Some 30, Some 40]] (Affine 1 0 0 0 1 0)))) = [u]
       \<and> Total_population_by_adm2 u = 100"
  using pop_by_adm_total[of 0 "[unit_row (box 0 2 0 2)]"
     "pop_gis [[Some 10, Some 20], [Some 30, Some 40]] (Affine 1 0 0 0 1 0)"]
  by (simp add: pop_gis_2x2 matching_def unit_row_def box_def)

section \<open>Band partitioning\<close>

lemma interior_of_empty: "interior_of {} = {}"
  by (auto simp: interior_of_def)

lemma box_interior: "x0 < x \<Longrightarrow> x < x1 \<Longrightarrow> y0 < y \<Longrightarrow> y < y1 \<Longrightarrow> (x, y) \<in> interior_of (box x0 x1 y0 y1)"
  unfolding interior_of_def
  apply simp
  apply (rule exI[of _ "{x0<..<x1} \<times> {y0<..<y1}"])
  apply (auto simp: box_def open_Times)
  done

lemma band_partition_short:
  assumes "length cg < 2" shows "band_partition cg = Inl ValueError"
proof -
  from assms consider "cg = []" | r where "cg = [r]"
    by (cases cg; cases "tl cg") auto
  then show ?thesis
  proof cases
    case 1
    then show ?thesis by (simp add: band_partition_def geometry_at_def)
  next
    case 2
    then show ?thesis
      by (simp add: band_partition_def geometry_at_def split: sum.splits)
  qed
qed

lemma band_partition_Inr_iff:
  "(\<exists>bands. band_partition cg = Inr bands) \<longleftrightarrow>
     (\<forall>w \<in> {60, 90, 120}. length (geometry_at cg w) = 1)"
proof -
  have a: "(\<exists>x. item xs = Inr x) \<longleftrightarrow> length xs = 1" for xs :: "geom list"
    by (cases xs rule: item.cases) auto
  show ?thesis
    using a[of "geometry_at cg 60"] a[of "geometry_at cg 90"] a[of "geometry_at cg 120"]
    by (auto simp: band_partition_def split: sum.splits)
qed

text \<open>
  A row of a threshold other than 60 and 90 keeps its polygon, and no row changes its
  wind speed.
\<close>

lemma other_thresholds_unchanged:
  assumes "band_partition cyclone_gis = Inr bands"
  shows "map wind_speed bands = map wind_speed cyclone_gis
       \<and> (\<forall>i < length cyclone_gis.
            wind_speed (cyclone_gis ! i) \<noteq> 60 \<and> wind_speed (cyclone_gis ! i) \<noteq> 90
            \<longrightarrow> bands ! i = cyclone_gis ! i)"
proof -
  from assms obtain g h where
    b: "bands = set_geometry_at 60 g (set_geometry_at 90 h cyclone_gis)"
    by (auto simp: band_partition_def split: sum.splits)
  have w: "map wind_speed (set_geometry_at v k rs) = map wind_speed rs" for v k rs
    by (induction rs) (simp_all add: set_geometry_at_def)
  have "map wind_speed bands = map wind_speed cyclone_gis" by (simp add: b w)
  moreover have "bands ! i = cyclone_gis ! i"
    if "i < length cyclone_gis" "wind_speed (cyclone_gis ! i) \<noteq> 60"
       "wind_speed (cyclone_gis ! i) \<noteq> 90" for i
    using that by (simp add: b set_geometry_at_def)
  ultimately show ?thesis by blast
qed




text \<open>
  Claim C3, as stated: for nested threshold polygons, no two distinct bands share an
  interior point and the bands make up the lowest polygon. A row of another threshold
  keeps its polygon: with a fourth nested polygon of 150 km/h, the band of 120 is the
  whole polygon of 120 and contains the band of 150.
\<close>

theorem four_nested_thresholds_overlap:
  "nested [cyc 60 (box 0 8 0 8), cyc 90 (box 1 7 1 7), cyc 120 (box 2 6 2 6), cyc 150 (box 3 5 3 5)]
   \<and> band_partition [cyc 60 (box 0 8 0 8), cyc 90 (box 1 7 1 7), cyc 120 (box 2 6 2 6), cyc 150 (box 3 5 3 5)]
       = Inr [cyc 60 (box 0 8 0 8 - box 1 7 1 7), cyc 90 (box 1 7 1 7 - box 2 6 2 6),
              cyc 120 (box 2 6 2 6), cyc 150 (box 3 5 3 5)]
   \<and> \<not> bands_interior_disjoint
         [cyc 60 (box 0 8 0 8 - box 1 7 1 7), cyc 90 (box 1 7 1 7 - box 2 6 2 6),
          cyc 120 (box 2 6 2 6), cyc 150 (box 3 5 3 5)]"
proof -
  have "nested [cyc 60 (box 0 8 0 8), cyc 90 (box 1 7 1 7), cyc 120 (box 2 6 2 6), cyc 150 (box 3 5 3 5)]"
    by (simp add: cyc_def box_def subset_iff)
  moreover have "band_partition [cyc 60 (box 0 8 0 8), cyc 90 (box 1 7 1 7), cyc 120 (box 2 6 2 6), cyc 150 (box 3 5 3 5)]
       = Inr [cyc 60 (box 0 8 0 8 - box 1 7 1 7), cyc 90 (box 1 7 1 7 - box 2 6 2 6),
              cyc 120 (box 2 6 2 6), cyc 150 (box 3 5 3 5)]"
    by (simp add: band_partition_def geometry_at_def set_geometry_at_def cyc_def)
  moreover have "\<not> bands_interior_disjoint
         [cyc 60 (box 0 8 0 8 - box 1 7 1 7), cyc 90 (box 1 7 1 7 - box 2 6 2 6),
          cyc 120 (box 2 6 2 6), cyc 150 (box 3 5 3 5)]"
  proof
    assume "bands_interior_disjoint
         [cyc 60 (box 0 8 0 8 - box 1 7 1 7), cyc 90 (box 1 7 1 7 - box 2 6 2 6),
          cyc 120 (box 2 6 2 6), cyc 150 (box 3 5 3 5)]"
    from this[unfolded bands_interior_disjoint_def, rule_format, of 2 3]
    have "interior_of (box 2 6 2 6 \<inter> box 3 5 3 5) = {}"
      by (simp add: cyc_def)
    moreover have "box 2 6 2 6 \<inter> box 3 5 3 5 = box 3 5 3 5"
      by (auto simp: box_def)
    moreover have "(4, 4) \<in> interior_of (box 3 5 3 5)"
      by (rule box_interior) simp_all
    ultimately show False by auto
  qed
  ultimately show ?thesis by blast
qed

text \<open>
  Claim C3, amended: when the thresholds are 60, 90 and 120 and the polygons are nested,
  the stage returns bands, no two distinct bands share an interior point, and the union
  of the bands is the polygon of the lowest threshold.
\<close>

theorem bands_partition_lowest_polygon:
  assumes "map wind_speed cyclone_gis = [60, 90, 120]" and "nested cyclone_gis"
  shows "\<exists>bands. band_partition cyclone_gis = Inr bands
           \<and> bands_interior_disjoint bands
           \<and> bands_union bands = geometry (hd cyclone_gis)"
proof -
  from assms(1) obtain r1 r2 r3 where cg: "cyclone_gis = [r1, r2, r3]"
    and w: "wind_speed r1 = 60" "wind_speed r2 = 90" "wind_speed r3 = 120"
    by (auto simp: map_eq_Cons_conv)
  from assms(2) have n: "geometry r2 \<subseteq> geometry r1" "geometry r3 \<subseteq> geometry r2"
    by (simp_all add: cg)
  let ?bands = "[r1\<lparr>geometry := geometry r1 - geometry r2\<rparr>,
                 r2\<lparr>geometry := geometry r2 - geometry r3\<rparr>, r3]"
  have b: "band_partition cyclone_gis = Inr ?bands"
    by (simp add: cg w band_partition_def geometry_at_def set_geometry_at_def)
  have d: "bands_interior_disjoint ?bands"
  proof -
    have "geometry (?bands ! i) \<inter> geometry (?bands ! j) = {}"
      if "i < 3" "j < 3" "i \<noteq> j" for i j
    proof -
      from that have "(i = 0 \<or> i = 1 \<or> i = 2) \<and> (j = 0 \<or> j = 1 \<or> j = 2)" by arith
      with that(3) n show ?thesis by auto
    qed
    then show ?thesis
      unfolding bands_interior_disjoint_def by (simp add: interior_of_empty)
  qed
  have u: "bands_union ?bands = geometry (hd cyclone_gis)"
    using n by (auto simp: bands_union_def cg)
  from b d u show ?thesis by blast
qed

theorem bands_partition_lowest_polygon_witness:
  "\<exists>bands. band_partition [cyc 60 (box 0 6 0 6), cyc 90 (box 1 5 1 5), cyc 120 (box 2 4 2 4)] = Inr bands
           \<and> bands_interior_disjoint bands
           \<and> bands_union bands = box 0 6 0 6"
  using bands_partition_lowest_polygon
          [of "[cyc 60 (box 0 6 0 6), cyc 90 (box 1 5 1 5), cyc 120 (box 2 4 2 4)]"]
  by (simp add: cyc_def box_def subset_iff)

text \<open>
  Claim C8, as stated: an empty difference makes the stage fail with a
  DegenerateGeometryError and return no band set. The script checks no geometry: where
  the polygon of 60 equals the polygon of 90, the band of 60 is empty and is returned.
\<close>

theorem empty_band_is_returned:
  "band_partition [cyc 60 (box 0 4 0 4), cyc 90 (box 0 4 0 4), cyc 120 (box 1 2 1 2)] =
     Inr [cyc 60 {}, cyc 90 (box 0 4 0 4 - box 1 2 1 2), cyc 120 (box 1 2 1 2)]"
  by (simp add: band_partition_def geometry_at_def set_geometry_at_def cyc_def)

text \<open>
  Claim C8, amended: with fewer than two thresholds the stage fails and returns no band
  set; the exception is the \<^verbatim>\<open>ValueError\<close> of \<^verbatim>\<open>.item()\<close>. The stage returns a band
  set exactly when each of the thresholds 60, 90 and 120 has one polygon, whatever the
  differences are.
\<close>

theorem band_partition_failures:
  "(length cyclone_gis < 2 \<longrightarrow> band_partition cyclone_gis = Inl ValueError)
   \<and> ((\<exists>bands. band_partition cyclone_gis = Inr bands) \<longleftrightarrow>
        (\<forall>w \<in> {60, 90, 120}. length (geometry_at cyclone_gis w) = 1))"
  using band_partition_short band_partition_Inr_iff by blast

theorem band_partition_failures_witness:
  "band_partition [cyc 60 (box 0 4 0 4)] = Inl ValueError
   \<and> (\<exists>bands. band_partition
         [cyc 60 (box 0 4 0 4), cyc 90 (box 0 4 0 4), cyc 120 (box 1 2 1 2)] = Inr bands)"
  using band_partition_failures [of "[cyc 60 (box 0 4 0 4)]"]
    band_partition_failures
      [of "[cyc 60 (box 0 4 0 4), cyc 90 (box 0 4 0 4), cyc 120 (box 1 2 1 2)]"]
  by (simp add: geometry_at_def cyc_def)

section \<open>Properties of the overlay\<close>

lemma map_of_unique:
  assumes "k \<in> fst ` set xs" and "\<And>v. (k, v) \<in> set xs \<Longrightarrow> v = v0"
  shows "map_of xs k = Some v0"
proof -
  from assms(1) have "map_of xs k \<noteq> None" by (simp add: map_of_eq_None_iff)
  then obtain v where v: "map_of xs k = Some v" by auto
  then have "(k, v) \<in> set xs" by (rule map_of_SomeD)
  with assms(2) v show ?thesis by simp
qed

lemma distinct_key_eq:
  "distinct (map f xs) \<Longrightarrow> x \<in> set xs \<Longrightarrow> y \<in> set xs \<Longrightarrow> f x = f y \<Longrightarrow> x = y"
  by (auto simp: distinct_map dest: inj_onD)

lemma closure_of_superset: "S \<subseteq> closure_of S"
  by (auto simp: closure_of_def interior_of_def)

lemma closure_of_closed:
  assumes "closed C" and "S \<subseteq> C"
  shows "closure_of S \<subseteq> C"
proof
  fix x assume x: "x \<in> closure_of S"
  show "x \<in> C"
  proof (rule ccontr)
    assume "x \<notin> C"
    with assms have "open (- C) \<and> x \<in> - C \<and> - C \<subseteq> - S" by (auto simp: open_Compl)
    then have "x \<in> interior_of (- S)" unfolding interior_of_def by blast
    with x show False by (simp add: closure_of_def)
  qed
qed

lemma box_closed: "closed (box x0 x1 y0 y1)"
proof -
  have "box x0 x1 y0 y1 = {x0..x1} \<times> {y0..y1}" by (auto simp: box_def)
  then show ?thesis by (simp add: closed_Times)
qed

lemma intersects_common_point: "g \<inter> h \<noteq> {} \<Longrightarrow> intersects g h"
  using closure_of_superset[of g] closure_of_superset[of h] by (auto simp: intersects_def)

lemma intersects_apart:
  assumes "g \<subseteq> box a b c d" and "h \<subseteq> box a' b' c' d'"
      and "box a b c d \<inter> box a' b' c' d' = {}"
  shows "\<not> intersects g h"
proof -
  have "closure_of g \<subseteq> box a b c d" using box_closed assms(1) by (rule closure_of_closed)
  moreover have "closure_of h \<subseteq> box a' b' c' d'" using box_closed assms(2) by (rule closure_of_closed)
  ultimately show ?thesis using assms(3) by (auto simp: intersects_def)
qed

lemma overlay_data_mem:
  "(k, v) \<in> set (overlay_data overlapping_area pba cg) \<longleftrightarrow>
     (\<exists>u \<in> set pba. \<exists>b \<in> set cg. k = (index_left u, wind_speed b)
        \<and> overlapping_area u b = Some v)"
proof -
  have "(k, v) \<in> set (case overlapping_area u b of None \<Rightarrow> []
                        | Some a \<Rightarrow> [((index_left u, wind_speed b), a)]) \<longleftrightarrow>
        k = (index_left u, wind_speed b) \<and> overlapping_area u b = Some v" for u b
    by (cases "overlapping_area u b") auto
  then show ?thesis by (simp add: overlay_data_def)
qed

lemma overlay_lookup:
  assumes "distinct (map index_left pba)" and "distinct (map wind_speed cg)"
      and "u \<in> set pba" and "b \<in> set cg"
  shows "map_of (overlay_data overlapping_area pba cg) (index_left u, wind_speed b) =
           overlapping_area u b"
proof (cases "overlapping_area u b")
  case (Some a)
  have "map_of (overlay_data overlapping_area pba cg) (index_left u, wind_speed b) = Some a"
  proof (rule map_of_unique)
    have "((index_left u, wind_speed b), a) \<in> set (overlay_data overlapping_area pba cg)"
      unfolding overlay_data_mem using Some assms(3,4) by blast
    then show "(index_left u, wind_speed b) \<in> fst ` set (overlay_data overlapping_area pba cg)"
      by (rule image_eqI[rotated]) simp
  next
    fix v assume "((index_left u, wind_speed b), v) \<in> set (overlay_data overlapping_area pba cg)"
    then obtain u' b' where **: "u' \<in> set pba" "b' \<in> set cg"
        "(index_left u, wind_speed b) = (index_left u', wind_speed b')"
        "overlapping_area u' b' = Some v"
      unfolding overlay_data_mem by blast
    then have *: "index_left u' = index_left u" "wind_speed b' = wind_speed b"
      by simp_all
    have "u' = u" using assms(1) **(1) assms(3) *(1) by (rule distinct_key_eq)
    moreover have "b' = b" using assms(2) **(2) assms(4) *(2) by (rule distinct_key_eq)
    ultimately show "v = a" using **(4) Some by simp
  qed
  with Some show ?thesis by simp
next
  case None
  have "map_of (overlay_data overlapping_area pba cg) (index_left u, wind_speed b) = None"
  proof (rule ccontr)
    assume "map_of (overlay_data overlapping_area pba cg) (index_left u, wind_speed b) \<noteq> None"
    then obtain v where "map_of (overlay_data overlapping_area pba cg) (index_left u, wind_speed b) = Some v"
      by auto
    then have "((index_left u, wind_speed b), v) \<in> set (overlay_data overlapping_area pba cg)"
      by (rule map_of_SomeD)
    then obtain u' b' where **: "u' \<in> set pba" "b' \<in> set cg"
        "(index_left u, wind_speed b) = (index_left u', wind_speed b')"
        "overlapping_area u' b' = Some v"
      unfolding overlay_data_mem by blast
    then have *: "index_left u' = index_left u" "wind_speed b' = wind_speed b"
      by simp_all
    have "u' = u" using assms(1) **(1) assms(3) *(1) by (rule distinct_key_eq)
    moreover have "b' = b" using assms(2) **(2) assms(4) *(2) by (rule distinct_key_eq)
    ultimately show False using **(4) None by simp
  qed
  with None show ?thesis by simp
qed

lemma final_data_fraction_mem:
  "r \<in> set (final_data_fraction unit_area overlapping_area pba cg) \<longleftrightarrow>
     (\<exists>u \<in> set pba. \<exists>b \<in> set cg. intersects (geometry u) (geometry b) \<and>
        r = \<lparr>geometry = geometry u, Total_population_by_adm2 = Total_population_by_adm2 u,
             index = (index_left u, wind_speed b),
             fraction = (case map_of (overlay_data overlapping_area pba cg)
                            (index_left u, wind_speed b) of
                       None \<Rightarrow> NaN
                     | Some a \<Rightarrow> fdiv (Finite a) (Finite (unit_area u)))\<rparr>)"
  by (simp add: final_data_fraction_def image_iff) blast

lemma final_data_fraction_row:
  assumes "distinct (map index_left pba)" and "distinct (map wind_speed cg)"
  shows "r \<in> set (final_data_fraction unit_area overlapping_area pba cg) \<longleftrightarrow>
     (\<exists>u \<in> set pba. \<exists>b \<in> set cg. intersects (geometry u) (geometry b) \<and>
        r = \<lparr>geometry = geometry u, Total_population_by_adm2 = Total_population_by_adm2 u,
             index = (index_left u, wind_speed b),
             fraction = fraction_of unit_area overlapping_area u b\<rparr>)"
proof -
  have "(case map_of (overlay_data overlapping_area pba cg) (index_left u, wind_speed b) of
           None \<Rightarrow> NaN
         | Some a \<Rightarrow> fdiv (Finite a) (Finite (unit_area u)))
        = fraction_of unit_area overlapping_area u b"
    if "u \<in> set pba" "b \<in> set cg" for u b
    by (simp add: overlay_lookup[OF assms that] fraction_of_def)
  then show ?thesis
    unfolding final_data_fraction_mem by (intro bex_cong refl) simp
qed

lemma final_data_fraction_distinct:
  assumes "distinct (map index_left pba)" and "distinct (map wind_speed cg)"
  shows "distinct (map index (final_data_fraction unit_area overlapping_area pba cg))"
proof -
  have inner: "distinct (map (\<lambda>b. (i, wind_speed b)) (filter P cg))" for i :: nat and P
  proof -
    have "distinct (map wind_speed (filter P cg))"
      using assms(2) by (rule distinct_map_filter)
    then show ?thesis by (simp add: distinct_map inj_on_def)
  qed
  have "distinct (concat (map (\<lambda>u. map (\<lambda>b. (index_left u, wind_speed b))
            (filter (\<lambda>b. intersects (geometry u) (geometry b)) cg)) pba))"
    using assms(1)
  proof (induction pba)
    case Nil
    then show ?case by simp
  next
    case (Cons u pba)
    then show ?case by (auto simp: inner)
  qed
  moreover have "map index (final_data_fraction unit_area overlapping_area pba cg) =
      concat (map (\<lambda>u. map (\<lambda>b. (index_left u, wind_speed b))
            (filter (\<lambda>b. intersects (geometry u) (geometry b)) cg)) pba)"
    by (simp add: final_data_fraction_def map_concat comp_def)
  ultimately show ?thesis by simp
qed

lemma overlay_data_distinct:
  assumes "distinct (map index_left pba)" and "distinct (map wind_speed cg)"
  shows "distinct (map fst (overlay_data overlapping_area pba cg))"
proof -
  have m: "concat (map (\<lambda>b. map fst (case overlapping_area u b of None \<Rightarrow> []
                 | Some a \<Rightarrow> [((index_left u, wind_speed b), a)])) cs) =
           map (\<lambda>b. (index_left u, wind_speed b))
               (filter (\<lambda>b. \<exists>y. overlapping_area u b = Some y) cs)"
    for u cs
    by (induction cs) (auto split: option.splits)
  have inner: "distinct (map (\<lambda>b. (i, wind_speed b)) (filter P cg))" for i :: nat and P
  proof -
    have "distinct (map wind_speed (filter P cg))"
      using assms(2) by (rule distinct_map_filter)
    then show ?thesis by (simp add: distinct_map inj_on_def)
  qed
  have e: "map fst (overlay_data overlapping_area pba cg) =
      concat (map (\<lambda>u. map (\<lambda>b. (index_left u, wind_speed b))
            (filter (\<lambda>b. overlapping_area u b \<noteq> None) cg)) pba)"
    by (simp add: overlay_data_def map_concat comp_def m)
  have "distinct (concat (map (\<lambda>u. map (\<lambda>b. (index_left u, wind_speed b))
            (filter (\<lambda>b. overlapping_area u b \<noteq> None) cg)) pba))"
    using assms(1)
  proof (induction pba)
    case Nil
    then show ?case by simp
  next
    case (Cons u pba)
    then show ?case by (auto simp: inner)
  qed
  with e show ?thesis by simp
qed

lemma people_at_round: "people_at fd w i = fround2 (population_at_band fd w i)"
  by (simp add: people_at_def population_at_band_def split: option.splits)


lemma final_kmph_mem:
  "(i, x) \<in> set (final_kmph fd w) \<longleftrightarrow> (\<exists>r \<in> set fd. index r = (i, w) \<and> fraction r = x)"
  by (auto simp: final_kmph_def prod_eq_iff)


lemma population_at_band_absent:
  assumes "w \<notin> wind_speed ` set cg"
  shows "population_at_band (final_data unit_area overlapping_area pba cg) w i = NaN"
proof -
  let ?fd = "final_data unit_area overlapping_area pba cg"
  have "map_of (final_kmph ?fd w) i = None"
  proof (rule ccontr)
    assume "map_of (final_kmph ?fd w) i \<noteq> None"
    then obtain x where "map_of (final_kmph ?fd w) i = Some x" by auto
    then have "(i, x) \<in> set (final_kmph ?fd w)" by (rule map_of_SomeD)
    then obtain r where r: "r \<in> set ?fd" "index r = (i, w)"
      unfolding final_kmph_mem by blast
    from r(1) obtain r0 where r0: "r0 \<in> set (final_data_fraction unit_area overlapping_area pba cg)"
      and rr: "r = r0\<lparr>fraction := fmul (fraction r0) (Finite (Total_population_by_adm2 r0))\<rparr>"
      by (auto simp: final_data_def)
    from r0 obtain u b where "u \<in> set pba" "b \<in> set cg"
      "index r0 = (index_left u, wind_speed b)"
      unfolding final_data_fraction_mem by auto
    with rr r(2) have "w = wind_speed b" "b \<in> set cg" by simp_all
    with assms show False by blast
  qed
  then show ?thesis by (simp add: population_at_band_def)
qed




lemma round2_zero: "round2 0 = 0"
  by (simp add: round2_def rint_def)

lemma total_nonneg:
  assumes "\<forall>p \<in> set pop. 0 \<le> Total_population_by_adm2 p"
      and "u \<in> set (pop_by_adm (adm_sjoin_pop adm pop))"
  shows "0 \<le> Total_population_by_adm2 u"
proof -
  have "Total_population_by_adm2 u =
          sum_list (map Total_population_by_adm2
            (filter (\<lambda>r. index_left r = index_left u) (adm_sjoin_pop adm pop)))"
    using pop_by_adm_row[OF assms(2)] by simp
  also have "\<dots> = (if index_left u < length adm
                    then sum_list (map Total_population_by_adm2 (matching adm pop (index_left u)))
                    else 0)"
    by (rule sjoin_total)
  also have "0 \<le> \<dots>"
    using assms(1) by (auto simp: matching_def intro!: sum_list_nonneg)
  finally show ?thesis .
qed

lemma assemble_index: "map index_left (assemble pba fd) = map index_left pba"
  by (simp add: assemble_def comp_def)

lemma assemble_mem:
  assumes "row \<in> set (assemble pba fd)"
  shows "\<exists>u \<in> set pba. index_left row = index_left u
           \<and> Total_population_by_adm2 row = Total_population_by_adm2 u
           \<and> People_at_60kmph row = people_at fd 60 (index_left u)
           \<and> People_at_90kmph row = people_at fd 90 (index_left u)
           \<and> People_at_120kmph row = people_at fd 120 (index_left u)
           \<and> pct_people_at_60kmph row =
               percentage (people_at fd 60 (index_left u)) (Total_population_by_adm2 u)
           \<and> pct_people_at_90kmph row =
               percentage (people_at fd 90 (index_left u)) (Total_population_by_adm2 u)
           \<and> pct_people_at_120kmph row =
               percentage (people_at fd 120 (index_left u)) (Total_population_by_adm2 u)"
  using assms by (auto simp: assemble_def)

lemma final_data_mem_total:
  assumes "r \<in> set (final_data unit_area overlapping_area pba cg)"
  shows "\<exists>u \<in> set pba. \<exists>f. fst (index r) = index_left u
            \<and> fraction r = fmul f (Finite (Total_population_by_adm2 u))"
proof -
  from assms obtain r0 where r0: "r0 \<in> set (final_data_fraction unit_area overlapping_area pba cg)"
    and r: "r = r0\<lparr>fraction := fmul (fraction r0) (Finite (Total_population_by_adm2 r0))\<rparr>"
    by (auto simp: final_data_def)
  from r0 obtain u b where "u \<in> set pba" "b \<in> set cg"
    "r0 = \<lparr>geometry = geometry u, Total_population_by_adm2 = Total_population_by_adm2 u,
             index = (index_left u, wind_speed b),
             fraction = (case map_of (overlay_data overlapping_area pba cg)
                            (index_left u, wind_speed b) of
                       None \<Rightarrow> NaN
                     | Some a \<Rightarrow> fdiv (Finite a) (Finite (unit_area u)))\<rparr>"
    unfolding final_data_fraction_mem by blast
  with r show ?thesis by (intro bexI[of _ u] exI[of _ "fraction r0"]) simp_all
qed

lemma fmul_zero: "fmul f (Finite 0) = NaN \<or> fmul f (Finite 0) = Finite 0"
  by (cases f) simp_all

lemma people_at_zero_total:
  assumes "distinct (map index_left pba)" and "u \<in> set pba"
      and "Total_population_by_adm2 u = 0"
  shows "people_at (final_data unit_area overlapping_area pba cg) w (index_left u) = NaN
       \<or> people_at (final_data unit_area overlapping_area pba cg) w (index_left u) = Finite 0"
proof (cases "map_of (final_kmph (final_data unit_area overlapping_area pba cg) w) (index_left u)")
  case None
  then show ?thesis by (simp add: people_at_def)
next
  case (Some x)
  then have "(index_left u, x) \<in> set (final_kmph (final_data unit_area overlapping_area pba cg) w)"
    by (rule map_of_SomeD)
  then obtain r where r: "r \<in> set (final_data unit_area overlapping_area pba cg)"
      "index r = (index_left u, w)" "fraction r = x"
    unfolding final_kmph_mem by blast
  from final_data_mem_total[OF r(1)] obtain u' f where u': "u' \<in> set pba"
      "fst (index r) = index_left u'" "fraction r = fmul f (Finite (Total_population_by_adm2 u'))"
    by blast
  from u'(2) r(2) have "index_left u' = index_left u" by simp
  with assms(1) u'(1) assms(2) have "u' = u" by (rule distinct_key_eq)
  with u'(3) r(3) assms(3) have "x = fmul f (Finite 0)" by simp
  with fmul_zero[of f] Some show ?thesis
    by (auto simp: people_at_def round2_zero)
qed

lemma percentage_zero_total: "p = NaN \<or> p = Finite 0 \<Longrightarrow> percentage p 0 = NaN"
  by (auto simp: percentage_def)

section \<open>The concrete runs, evaluated\<close>

lemma grid_centres_4: "grid_centres 4 =
  [(1/2, 1/2), (1/2, 3/2), (1/2, 5/2), (1/2, 7/2),
   (3/2, 1/2), (3/2, 3/2), (3/2, 5/2), (3/2, 7/2),
   (5/2, 1/2), (5/2, 3/2), (5/2, 5/2), (5/2, 7/2),
   (7/2, 1/2), (7/2, 3/2), (7/2, 5/2), (7/2, 7/2)]"
  by (simp add: grid_centres_def upt_rec numeral_eq_Suc)

lemma example_pop_gis: "pop_gis example_raster (Affine 1 0 0 0 1 0) =
   [\<lparr>geometry = (1/2, 1/2), Total_population_by_adm2 = 1/2\<rparr>,
    \<lparr>geometry = (3/2, 1/2), Total_population_by_adm2 = 64/125\<rparr>,
    \<lparr>geometry = (1/2, 5/2), Total_population_by_adm2 = 0\<rparr>]"
  by (simp add: pop_gis_def example_raster_def shapes_def cells_def value_at_def region_def
        grow_def adjacent_def centroid_def upt_rec numeral_eq_Suc)

lemma example_pop_by_adm:
  "pop_by_adm (adm_sjoin_pop example_adm (pop_gis example_raster (Affine 1 0 0 0 1 0))) =
   [\<lparr>geometry = box 0 2 0 1, Total_population_by_adm2 = 253 / 250, index_left = 0\<rparr>,
    \<lparr>geometry = box 0 2 2 3, Total_population_by_adm2 = 0, index_left = 1\<rparr>]"
  by (simp add: example_pop_gis example_adm_def adm_sjoin_pop_def pop_by_adm_def unit_row_def
        box_def upt_rec numeral_eq_Suc)

lemma example_bands:
  "band_partition (sort_key wind_speed example_cyclone) =
     Inr [cyc 60 (box 0 4 0 4 - box 1 4 0 4), cyc 90 (box 1 4 0 4 - box 3 4 0 4),
          cyc 120 (box 3 4 0 4)]"
  by (simp add: example_cyclone_def band_partition_def geometry_at_def set_geometry_at_def cyc_def)

lemma box_Int: "box a b c d \<inter> box a' b' c' d' = box (max a a') (min b b') (max c c') (min d d')"
  by (auto simp: box_def)

lemma box_empty_iff: "box a b c d = {} \<longleftrightarrow> b < a \<or> d < c"
proof
  assume e: "box a b c d = {}"
  show "b < a \<or> d < c"
  proof (rule ccontr)
    assume "\<not> (b < a \<or> d < c)"
    then have "(a, c) \<in> box a b c d" by (simp add: box_def)
    with e show False by simp
  qed
next
  assume "b < a \<or> d < c"
  then show "box a b c d = {}" by (auto simp: box_def)
qed


text \<open>Which unit meets which band of the concrete runs.\<close>

lemma band_60_within: "box 0 4 0 4 - box 1 4 0 4 \<subseteq> box 0 1 0 4"
  by (auto simp: box_def)


lemma example_intersects:
  "intersects (box 0 2 0 1) (box 0 4 0 4 - box 1 4 0 4)"
  "intersects (box 0 2 0 1) (box 1 4 0 4 - box 3 4 0 4)"
  "\<not> intersects (box 0 2 0 1) (box 3 4 0 4)"
  "intersects (box 0 2 2 3) (box 0 4 0 4 - box 1 4 0 4)"
  "intersects (box 0 2 2 3) (box 1 4 0 4 - box 3 4 0 4)"
  "\<not> intersects (box 0 2 2 3) (box 3 4 0 4)"
proof -
  have "(0, 0) \<in> box 0 2 0 1 \<inter> (box 0 4 0 4 - box 1 4 0 4)" by (simp add: box_def)
  then show "intersects (box 0 2 0 1) (box 0 4 0 4 - box 1 4 0 4)"
    by (intro intersects_common_point) blast
  have "(1, 0) \<in> box 0 2 0 1 \<inter> (box 1 4 0 4 - box 3 4 0 4)" by (simp add: box_def)
  then show "intersects (box 0 2 0 1) (box 1 4 0 4 - box 3 4 0 4)"
    by (intro intersects_common_point) blast
  have "(0, 2) \<in> box 0 2 2 3 \<inter> (box 0 4 0 4 - box 1 4 0 4)" by (simp add: box_def)
  then show "intersects (box 0 2 2 3) (box 0 4 0 4 - box 1 4 0 4)"
    by (intro intersects_common_point) blast
  have "(1, 2) \<in> box 0 2 2 3 \<inter> (box 1 4 0 4 - box 3 4 0 4)" by (simp add: box_def)
  then show "intersects (box 0 2 2 3) (box 1 4 0 4 - box 3 4 0 4)"
    by (intro intersects_common_point) blast
  show "\<not> intersects (box 0 2 0 1) (box 3 4 0 4)"
    by (rule intersects_apart[OF subset_refl subset_refl]) (simp add: box_Int box_empty_iff)
  show "\<not> intersects (box 0 2 2 3) (box 3 4 0 4)"
    by (rule intersects_apart[OF subset_refl subset_refl]) (simp add: box_Int box_empty_iff)
qed

lemma touching_intersects:
  "\<not> intersects (box 2 3 0 1) (box 0 4 0 4 - box 1 4 0 4)"
  "intersects (box 2 3 0 1) (box 1 4 0 4 - box 3 4 0 4)"
  "intersects (box 2 3 0 1) (box 3 4 0 4)"
proof -
  show "\<not> intersects (box 2 3 0 1) (box 0 4 0 4 - box 1 4 0 4)"
    by (rule intersects_apart[OF subset_refl band_60_within]) (simp add: box_Int box_empty_iff)
  have "(2, 0) \<in> box 2 3 0 1 \<inter> (box 1 4 0 4 - box 3 4 0 4)" by (simp add: box_def)
  then show "intersects (box 2 3 0 1) (box 1 4 0 4 - box 3 4 0 4)"
    by (intro intersects_common_point) blast
  have "(3, 0) \<in> box 2 3 0 1 \<inter> box 3 4 0 4" by (simp add: box_def)
  then show "intersects (box 2 3 0 1) (box 3 4 0 4)"
    by (intro intersects_common_point) blast
qed


text \<open>The first run.\<close>

lemma example_final_data_fraction:
  "final_data_fraction example_unit_area example_overlapping_area
     [\<lparr>geometry = box 0 2 0 1, Total_population_by_adm2 = 253 / 250, index_left = 0\<rparr>,
      \<lparr>geometry = box 0 2 2 3, Total_population_by_adm2 = 0, index_left = 1\<rparr>]
     [cyc 60 (box 0 4 0 4 - box 1 4 0 4), cyc 90 (box 1 4 0 4 - box 3 4 0 4),
          cyc 120 (box 3 4 0 4)] =
   [\<lparr>geometry = box 0 2 0 1, Total_population_by_adm2 = 253 / 250, index = (0, 60),
      fraction = Finite (1 / 2)\<rparr>,
    \<lparr>geometry = box 0 2 0 1, Total_population_by_adm2 = 253 / 250, index = (0, 90),
      fraction = Finite (1 / 2)\<rparr>,
    \<lparr>geometry = box 0 2 2 3, Total_population_by_adm2 = 0, index = (1, 60),
      fraction = Finite (1 / 2)\<rparr>,
    \<lparr>geometry = box 0 2 2 3, Total_population_by_adm2 = 0, index = (1, 90),
      fraction = Finite (1 / 2)\<rparr>]"
proof -
  have a: "grid_area 4 (box 0 2 0 1) = 2" "grid_area 4 (box 0 2 2 3) = 2"
    "grid_area 4 (box 0 2 0 1 \<inter> (box 0 4 0 4 - box 1 4 0 4)) = 1"
    "grid_area 4 (box 0 2 0 1 \<inter> (box 1 4 0 4 - box 3 4 0 4)) = 1"
    "grid_area 4 (box 0 2 0 1 \<inter> box 3 4 0 4) = 0"
    "grid_area 4 (box 0 2 2 3 \<inter> (box 0 4 0 4 - box 1 4 0 4)) = 1"
    "grid_area 4 (box 0 2 2 3 \<inter> (box 1 4 0 4 - box 3 4 0 4)) = 1"
    "grid_area 4 (box 0 2 2 3 \<inter> box 3 4 0 4) = 0"
    by (simp_all add: grid_area_def grid_centres_4 box_def)
  show ?thesis
    by (simp add: final_data_fraction_def overlay_data_def cyc_def example_intersects
          example_unit_area_def example_overlapping_area_def a)
qed

lemma example_overlay_index:
  "map fst (overlay_data example_overlapping_area
     [\<lparr>geometry = box 0 2 0 1, Total_population_by_adm2 = 253 / 250, index_left = 0\<rparr>,
      \<lparr>geometry = box 0 2 2 3, Total_population_by_adm2 = 0, index_left = 1\<rparr>]
     [cyc 60 (box 0 4 0 4 - box 1 4 0 4), cyc 90 (box 1 4 0 4 - box 3 4 0 4),
          cyc 120 (box 3 4 0 4)]) = [(0, 60), (0, 90), (1, 60), (1, 90)]"
proof -
  have a:
    "grid_area 4 (box 0 2 0 1 \<inter> (box 0 4 0 4 - box 1 4 0 4)) = 1"
    "grid_area 4 (box 0 2 0 1 \<inter> (box 1 4 0 4 - box 3 4 0 4)) = 1"
    "grid_area 4 (box 0 2 0 1 \<inter> box 3 4 0 4) = 0"
    "grid_area 4 (box 0 2 2 3 \<inter> (box 0 4 0 4 - box 1 4 0 4)) = 1"
    "grid_area 4 (box 0 2 2 3 \<inter> (box 1 4 0 4 - box 3 4 0 4)) = 1"
    "grid_area 4 (box 0 2 2 3 \<inter> box 3 4 0 4) = 0"
    by (simp_all add: grid_area_def grid_centres_4 box_def)
  show ?thesis
    by (simp add: overlay_data_def cyc_def example_overlapping_area_def a)
qed

lemma example_pop_by_adm_rows:
  "example_pop_by_adm =
   [\<lparr>geometry = box 0 2 0 1, Total_population_by_adm2 = 253 / 250, index_left = 0\<rparr>,
    \<lparr>geometry = box 0 2 2 3, Total_population_by_adm2 = 0, index_left = 1\<rparr>]"
  unfolding example_pop_by_adm_def by (rule example_pop_by_adm)

lemma example_final_data_rows:
  "example_final_data =
   [\<lparr>geometry = box 0 2 0 1, Total_population_by_adm2 = 253 / 250, index = (0, 60),
      fraction = Finite (253 / 500)\<rparr>,
    \<lparr>geometry = box 0 2 0 1, Total_population_by_adm2 = 253 / 250, index = (0, 90),
      fraction = Finite (253 / 500)\<rparr>,
    \<lparr>geometry = box 0 2 2 3, Total_population_by_adm2 = 0, index = (1, 60),
      fraction = Finite 0\<rparr>,
    \<lparr>geometry = box 0 2 2 3, Total_population_by_adm2 = 0, index = (1, 90),
      fraction = Finite 0\<rparr>]"
  unfolding example_final_data_def final_data_def example_pop_by_adm_rows example_bands_def
    example_final_data_fraction
  by simp

lemma example_assemble: "assemble example_pop_by_adm example_final_data = example_output"
  by (simp add: example_pop_by_adm_rows example_final_data_rows assemble_def people_at_def
        final_kmph_def percentage_def round2_def rint_def example_output_def)

lemma example_shapes: "shapes example_raster \<noteq> []"
  by (simp add: example_raster_def shapes_def cells_def value_at_def region_def
        grow_def adjacent_def upt_rec numeral_eq_Suc)

lemma example_script:
  "script example_unit_area example_overlapping_area example_raster (Affine 1 0 0 0 1 0)
     example_adm example_cyclone = Inr example_output"
proof -
  have d: "distinct (map index (final_data_fraction example_unit_area example_overlapping_area
             example_pop_by_adm example_bands))"
    unfolding example_pop_by_adm_rows example_bands_def example_final_data_fraction by simp
  have e: "distinct (map fst (overlay_data example_overlapping_area
             example_pop_by_adm example_bands))"
    unfolding example_pop_by_adm_rows example_bands_def example_overlay_index by simp
  have "script example_unit_area example_overlapping_area example_raster (Affine 1 0 0 0 1 0)
          example_adm example_cyclone
     = Inr (assemble example_pop_by_adm example_final_data)"
    using d e
    by (simp add: script_def Let_def example_shapes
          example_bands[unfolded example_bands_def[symmetric]]
          example_pop_by_adm_def example_final_data_def)
  then show ?thesis by (simp add: example_assemble)
qed

text \<open>The second run.\<close>

lemma touching_pop_by_adm_rows:
  "touching_pop_by_adm =
     [\<lparr>geometry = box 2 3 0 1, Total_population_by_adm2 = 7, index_left = 0\<rparr>]"
  by (simp add: touching_pop_by_adm_def touching_raster_def touching_adm_def pop_gis_def
        shapes_def cells_def value_at_def region_def grow_def adjacent_def centroid_def
        adm_sjoin_pop_def pop_by_adm_def unit_row_def box_def upt_rec numeral_eq_Suc)

lemma touching_final_data_fraction:
  "final_data_fraction unit_area (touching_overlapping_area a) touching_pop_by_adm example_bands =
   [\<lparr>geometry = box 2 3 0 1, Total_population_by_adm2 = 7, index = (0, 90),
      fraction = fdiv (Finite a)
                   (Finite (unit_area \<lparr>geometry = box 2 3 0 1, Total_population_by_adm2 = 7,
                                        index_left = 0\<rparr>))\<rparr>,
    \<lparr>geometry = box 2 3 0 1, Total_population_by_adm2 = 7, index = (0, 120),
      fraction = NaN\<rparr>]"
  unfolding touching_pop_by_adm_rows example_bands_def
  by (simp add: final_data_fraction_def overlay_data_def cyc_def touching_intersects
        touching_overlapping_area_def)





section \<open>Overlay, apportionment and the result table\<close>

text \<open>
  Claim C4, as stated: every fraction that line 109 computes lies between 0 and 1. In
  the second run the unit shares an edge with the band of 120. The join of line 99 has
  a row for the pair, the overlay of line 104 has none, and the division of line 109
  leaves NaN in the row, whatever the areas of the other rows are: the fraction of the
  record (0, 120) is neither at least 0 nor at most 1.
\<close>

theorem touching_pair_fraction_is_nan:
  "band_partition (sort_key wind_speed example_cyclone) = Inr example_bands
   \<and> touching_pop_by_adm =
       [\<lparr>geometry = box 2 3 0 1, Total_population_by_adm2 = 7, index_left = 0\<rparr>]
   \<and> (\<forall>unit_area a.
        map index (final_data_fraction unit_area (touching_overlapping_area a)
                     touching_pop_by_adm example_bands) = [(0, 90), (0, 120)]
        \<and> fraction (final_data_fraction unit_area (touching_overlapping_area a)
                       touching_pop_by_adm example_bands ! 1) = NaN
        \<and> \<not> fle (Finite 0)
                 (fraction (final_data_fraction unit_area (touching_overlapping_area a)
                              touching_pop_by_adm example_bands ! 1))
        \<and> \<not> fle (fraction (final_data_fraction unit_area (touching_overlapping_area a)
                              touching_pop_by_adm example_bands ! 1))
                 (Finite 1))"
proof -
  have "band_partition (sort_key wind_speed example_cyclone) = Inr example_bands"
    unfolding example_bands_def by (rule example_bands)
  then show ?thesis
    unfolding touching_final_data_fraction by (simp add: touching_pop_by_adm_rows)
qed

text \<open>
  Claim C4, amended: when the wind speeds of the bands are pairwise distinct, every
  record of \<^verbatim>\<open>final_data\<close> belongs to a unit and a band that intersect. Its fraction is
  NaN when the overlay has no row for the pair. Otherwise it is the area of the overlay
  row divided by the area of the unit, as the libraries measure the two; when the first
  is not negative and the second is positive, the fraction is at least 0, and it is at
  most 1 exactly when the measured overlap does not exceed the measured area of the
  unit, which no line of the script checks.
\<close>

theorem fraction_is_quotient_of_measured_areas:
  assumes "distinct (map wind_speed cyclone_gis)"
      and "r \<in> set (final_data_fraction unit_area overlapping_area (pop_by_adm rows) cyclone_gis)"
  shows "\<exists>u \<in> set (pop_by_adm rows). \<exists>b \<in> set cyclone_gis.
           index r = (index_left u, wind_speed b)
         \<and> intersects (geometry u) (geometry b)
         \<and> (case overlapping_area u b of
              None \<Rightarrow> fraction r = NaN
            | Some a \<Rightarrow>
                fraction r = fdiv (Finite a) (Finite (unit_area u))
              \<and> (0 \<le> a \<and> 0 < unit_area u \<longrightarrow>
                   fle (Finite 0) (fraction r)
                 \<and> (fle (fraction r) (Finite 1) \<longleftrightarrow> a \<le> unit_area u)))"
proof -
  from assms(2) obtain u b where u: "u \<in> set (pop_by_adm rows)" and b: "b \<in> set cyclone_gis"
    and i: "intersects (geometry u) (geometry b)"
    and r: "r = \<lparr>geometry = geometry u, Total_population_by_adm2 = Total_population_by_adm2 u,
             index = (index_left u, wind_speed b),
             fraction = fraction_of unit_area overlapping_area u b\<rparr>"
    unfolding final_data_fraction_row[OF pop_by_adm_distinct assms(1)] by blast
  have "case overlapping_area u b of
              None \<Rightarrow> fraction r = NaN
            | Some a \<Rightarrow>
                fraction r = fdiv (Finite a) (Finite (unit_area u))
              \<and> (0 \<le> a \<and> 0 < unit_area u \<longrightarrow>
                   fle (Finite 0) (fraction r)
                 \<and> (fle (fraction r) (Finite 1) \<longleftrightarrow> a \<le> unit_area u))"
  proof (cases "overlapping_area u b")
    case None
    then show ?thesis by (simp add: r fraction_of_def)
  next
    case (Some a)
    then show ?thesis by (simp add: r fraction_of_def pos_divide_le_eq)
  qed
  moreover have "index r = (index_left u, wind_speed b)" by (simp add: r)
  ultimately show ?thesis using u b i by blast
qed

theorem fraction_is_quotient_of_measured_areas_witness:
  "(\<exists>u \<in> set example_pop_by_adm. \<exists>b \<in> set example_bands.
       (index_left u, wind_speed b) = (0, 60)
     \<and> example_overlapping_area u b = Some 1 \<and> example_unit_area u = 2
     \<and> fraction (final_data_fraction example_unit_area example_overlapping_area
                    example_pop_by_adm example_bands ! 0) = Finite (1 / 2))
   \<and> (\<exists>u \<in> set touching_pop_by_adm. \<exists>b \<in> set example_bands.
       (index_left u, wind_speed b) = (0, 90)
     \<and> touching_overlapping_area 1 u b = Some 1
     \<and> fraction (final_data_fraction (\<lambda>u. 1) (touching_overlapping_area 1)
                    touching_pop_by_adm example_bands ! 0) = Finite 1)
   \<and> (\<exists>u \<in> set touching_pop_by_adm. \<exists>b \<in> set example_bands.
       (index_left u, wind_speed b) = (0, 120)
     \<and> touching_overlapping_area 1 u b = None
     \<and> fraction (final_data_fraction (\<lambda>u. 1) (touching_overlapping_area 1)
                    touching_pop_by_adm example_bands ! 1) = NaN)"
proof -
  let ?r1 = "\<lparr>geometry = box 0 2 0 1, Total_population_by_adm2 = 253 / 250, index = (0, 60),
      fraction = Finite (1 / 2)\<rparr>"
  let ?r2 = "\<lparr>geometry = box 2 3 0 1, Total_population_by_adm2 = 7, index = (0, 90),
      fraction = Finite 1\<rparr>"
  let ?r3 = "\<lparr>geometry = box 2 3 0 1, Total_population_by_adm2 = 7, index = (0, 120),
      fraction = NaN\<rparr>"
  have d: "distinct (map wind_speed example_bands)" by (simp add: example_bands_def cyc_def)
  have m1: "?r1 \<in> set (final_data_fraction example_unit_area example_overlapping_area
                 (pop_by_adm (adm_sjoin_pop example_adm
                    (pop_gis example_raster (Affine 1 0 0 0 1 0)))) example_bands)"
    unfolding example_pop_by_adm example_bands_def example_final_data_fraction by simp
  have t: "final_data_fraction (\<lambda>u. 1) (touching_overlapping_area 1)
             (pop_by_adm (adm_sjoin_pop touching_adm
                (pop_gis touching_raster (Affine 1 0 2 0 1 0)))) example_bands = [?r2, ?r3]"
    unfolding touching_pop_by_adm_def[symmetric] touching_final_data_fraction by simp
  have m2: "?r2 \<in> set (final_data_fraction (\<lambda>u. 1) (touching_overlapping_area 1)
             (pop_by_adm (adm_sjoin_pop touching_adm
                (pop_gis touching_raster (Affine 1 0 2 0 1 0)))) example_bands)"
    and m3: "?r3 \<in> set (final_data_fraction (\<lambda>u. 1) (touching_overlapping_area 1)
             (pop_by_adm (adm_sjoin_pop touching_adm
                (pop_gis touching_raster (Affine 1 0 2 0 1 0)))) example_bands)"
    unfolding t by simp_all
  have a: "grid_area 4 (box 0 2 0 1) = 2"
    "grid_area 4 (box 0 2 0 1 \<inter> (box 0 4 0 4 - box 1 4 0 4)) = 1"
    by (simp_all add: grid_area_def grid_centres_4 box_def)
  have one: "\<exists>u \<in> set example_pop_by_adm. \<exists>b \<in> set example_bands.
       (index_left u, wind_speed b) = (0, 60)
     \<and> example_overlapping_area u b = Some 1 \<and> example_unit_area u = 2
     \<and> fraction (final_data_fraction example_unit_area example_overlapping_area
                    example_pop_by_adm example_bands ! 0) = Finite (1 / 2)"
    using fraction_is_quotient_of_measured_areas[OF d m1]
    unfolding example_pop_by_adm_def[symmetric]
    unfolding example_pop_by_adm_rows example_bands_def example_final_data_fraction
    by (simp add: cyc_def example_overlapping_area_def example_unit_area_def a)
  have two: "\<exists>u \<in> set touching_pop_by_adm. \<exists>b \<in> set example_bands.
       (index_left u, wind_speed b) = (0, 90)
     \<and> touching_overlapping_area 1 u b = Some 1
     \<and> fraction (final_data_fraction (\<lambda>u. 1) (touching_overlapping_area 1)
                    touching_pop_by_adm example_bands ! 0) = Finite 1"
    using fraction_is_quotient_of_measured_areas[OF d m2]
    unfolding touching_pop_by_adm_def[symmetric] touching_final_data_fraction
    unfolding touching_pop_by_adm_rows example_bands_def
    by (simp add: cyc_def touching_overlapping_area_def)
  have three: "\<exists>u \<in> set touching_pop_by_adm. \<exists>b \<in> set example_bands.
       (index_left u, wind_speed b) = (0, 120)
     \<and> touching_overlapping_area 1 u b = None
     \<and> fraction (final_data_fraction (\<lambda>u. 1) (touching_overlapping_area 1)
                    touching_pop_by_adm example_bands ! 1) = NaN"
    using fraction_is_quotient_of_measured_areas[OF d m3]
    unfolding touching_pop_by_adm_def[symmetric] touching_final_data_fraction
    unfolding touching_pop_by_adm_rows example_bands_def
    by (simp add: cyc_def touching_overlapping_area_def)
  from one two three show ?thesis by blast
qed




text \<open>
  Claim C7, as stated: the percentage is the unrounded population at the band, divided by
  the total, times 100, rounded once at the end. Line 120 stores the rounded population
  and line 126 divides that stored value. In the concrete run the first unit has the
  unrounded value 0.506 of its total 1.012, which is 50 percent; the script reports
  50.4, from the stored 0.51.
\<close>

theorem percentage_differs_from_unrounded:
  "script example_unit_area example_overlapping_area example_raster (Affine 1 0 0 0 1 0) example_adm example_cyclone
     = Inr example_output
   \<and> population_at_band example_final_data 60 0 = Finite (253 / 500)
   \<and> Total_population_by_adm2 (hd example_output) = 253 / 250
   \<and> pct_people_at_60kmph (hd example_output) = Finite (252 / 5)
   \<and> fround2 (fmul (fdiv (population_at_band example_final_data 60 0)
                          (Finite (Total_population_by_adm2 (hd example_output))))
                    (Finite 100)) = Finite 50"
proof -
  have p: "population_at_band example_final_data 60 0 = Finite (253 / 500)"
    by (simp add: population_at_band_def final_kmph_def example_final_data_rows)
  show ?thesis
    by (simp add: example_script p) (simp add: example_output_def round2_def rint_def)
qed

text \<open>
  Claim C7, amended: the population at a band is rounded to two decimals when it is
  stored in the result table, and the percentage is computed from that rounded value:
  rounded value, divided by the total, times 100, rounded again.
\<close>

theorem percentage_of_rounded_people:
  assumes "row \<in> set (assemble pba fd)"
  shows "People_at_60kmph row = fround2 (population_at_band fd 60 (index_left row))
       \<and> People_at_90kmph row = fround2 (population_at_band fd 90 (index_left row))
       \<and> People_at_120kmph row = fround2 (population_at_band fd 120 (index_left row))
       \<and> pct_people_at_60kmph row =
           fround2 (fmul (fdiv (fround2 (population_at_band fd 60 (index_left row)))
                               (Finite (Total_population_by_adm2 row))) (Finite 100))
       \<and> pct_people_at_90kmph row =
           fround2 (fmul (fdiv (fround2 (population_at_band fd 90 (index_left row)))
                               (Finite (Total_population_by_adm2 row))) (Finite 100))
       \<and> pct_people_at_120kmph row =
           fround2 (fmul (fdiv (fround2 (population_at_band fd 120 (index_left row)))
                               (Finite (Total_population_by_adm2 row))) (Finite 100))"
proof -
  from assemble_mem[OF assms] obtain u where "u \<in> set pba"
    "index_left row = index_left u" "Total_population_by_adm2 row = Total_population_by_adm2 u"
    "People_at_60kmph row = people_at fd 60 (index_left u)"
    "People_at_90kmph row = people_at fd 90 (index_left u)"
    "People_at_120kmph row = people_at fd 120 (index_left u)"
    "pct_people_at_60kmph row =
               percentage (people_at fd 60 (index_left u)) (Total_population_by_adm2 u)"
    "pct_people_at_90kmph row =
               percentage (people_at fd 90 (index_left u)) (Total_population_by_adm2 u)"
    "pct_people_at_120kmph row =
               percentage (people_at fd 120 (index_left u)) (Total_population_by_adm2 u)"
    by blast
  then show ?thesis by (simp add: people_at_round percentage_def)
qed

theorem percentage_of_rounded_people_witness:
  "hd example_output \<in> set (assemble example_pop_by_adm example_final_data)
   \<and> population_at_band example_final_data 60 0 = Finite (253 / 500)
   \<and> People_at_60kmph (hd example_output) = Finite (51 / 100)
   \<and> pct_people_at_60kmph (hd example_output) =
        fround2 (fmul (fdiv (Finite (51 / 100)) (Finite (253 / 250))) (Finite 100))"
proof -
  have m: "hd example_output \<in> set (assemble example_pop_by_adm example_final_data)"
    by (simp add: example_assemble) (simp add: example_output_def)
  have p: "population_at_band example_final_data 60 0 = Finite (253 / 500)"
    by (simp add: population_at_band_def final_kmph_def example_final_data_rows)
  have i: "index_left (hd example_output) = 0"
          "Total_population_by_adm2 (hd example_output) = 253 / 250"
          "round2 (253 / 500) = 51 / 100"
    by (simp_all add: example_output_def round2_def rint_def)
  from percentage_of_rounded_people[OF m] m p show ?thesis
    by (simp add: i)
qed

text \<open>
  Claim C9: for a unit whose total population is 0, the three percentages are computed
  without an exception (lines 114-128 are a plain value of the model, \<open>assemble\<close>, with
  no error branch) and each of them is NaN, not 0.
\<close>

theorem zero_total_percentage_is_nan:
  assumes "row \<in> set (assemble (pop_by_adm rows)
                         (final_data unit_area overlapping_area (pop_by_adm rows) cyclone_gis))"
      and "Total_population_by_adm2 row = 0"
  shows "pct_people_at_60kmph row = NaN \<and> pct_people_at_90kmph row = NaN
         \<and> pct_people_at_120kmph row = NaN"
proof -
  let ?fd = "final_data unit_area overlapping_area (pop_by_adm rows) cyclone_gis"
  from assemble_mem[OF assms(1)] obtain u where u: "u \<in> set (pop_by_adm rows)"
    and e: "Total_population_by_adm2 row = Total_population_by_adm2 u"
    "pct_people_at_60kmph row =
               percentage (people_at ?fd 60 (index_left u)) (Total_population_by_adm2 u)"
    "pct_people_at_90kmph row =
               percentage (people_at ?fd 90 (index_left u)) (Total_population_by_adm2 u)"
    "pct_people_at_120kmph row =
               percentage (people_at ?fd 120 (index_left u)) (Total_population_by_adm2 u)"
    by blast
  from e(1) assms(2) have z: "Total_population_by_adm2 u = 0" by simp
  note p = people_at_zero_total[OF pop_by_adm_distinct u z, of unit_area overlapping_area cyclone_gis]
  show ?thesis
    using percentage_zero_total[OF p[of 60]] percentage_zero_total[OF p[of 90]]
      percentage_zero_total[OF p[of 120]]
    by (simp add: e z)
qed

theorem zero_total_percentage_is_nan_witness:
  "example_output ! 1 \<in> set (assemble example_pop_by_adm example_final_data)
   \<and> Total_population_by_adm2 (example_output ! 1) = 0
   \<and> pct_people_at_60kmph (example_output ! 1) = NaN
   \<and> pct_people_at_90kmph (example_output ! 1) = NaN
   \<and> pct_people_at_120kmph (example_output ! 1) = NaN"
proof -
  have m: "example_output ! 1 \<in> set (assemble example_pop_by_adm example_final_data)"
    by (simp add: example_assemble) (simp add: example_output_def)
  have z: "Total_population_by_adm2 (example_output ! 1) = 0"
    by (simp add: example_output_def)
  from zero_total_percentage_is_nan[OF m[unfolded example_final_data_def example_pop_by_adm_def] z]
    m z show ?thesis by simp
qed

text \<open>
  Claim C10: a unit that intersects no population point has no row in the result table
  of the script.
\<close>

theorem unit_without_points_is_absent:
  assumes "script unit_area overlapping_area img transform adm cyclone = Inr out"
      and "matching adm (pop_gis img transform) i = []"
  shows "i \<notin> index_left ` set out"
proof -
  let ?pba = "pop_by_adm (adm_sjoin_pop adm (pop_gis img transform))"
  from assms(1) obtain fd where "out = assemble ?pba fd"
    by (auto simp: script_def Let_def split: sum.splits if_splits)
  then have "map index_left out = map index_left ?pba"
    by (simp add: assemble_index)
  then have "set (map index_left out) = set (map index_left ?pba)"
    by (rule arg_cong)
  then have "index_left ` set out = set (sort (remdups (map index_left
               (adm_sjoin_pop adm (pop_gis img transform)))))"
    by (simp only: set_map pop_by_adm_keys[symmetric])
  also have "\<dots> = index_left ` set (adm_sjoin_pop adm (pop_gis img transform))"
    by simp
  finally show ?thesis using assms(2) by (simp add: sjoin_keys)
qed

theorem unit_without_points_is_absent_witness:
  "script example_unit_area example_overlapping_area example_raster (Affine 1 0 0 0 1 0) example_adm example_cyclone
     = Inr example_output
   \<and> matching example_adm (pop_gis example_raster (Affine 1 0 0 0 1 0)) 2 = []
   \<and> 2 \<notin> index_left ` set example_output"
proof -
  have m: "matching example_adm (pop_gis example_raster (Affine 1 0 0 0 1 0)) 2 = []"
    by (simp add: matching_def example_pop_gis example_adm_def unit_row_def box_def)
  from unit_without_points_is_absent[OF example_script m] example_script m
  show ?thesis by simp
qed

end
